theory Spec2Isabelle
  imports Complex_Main "HOL-Library.Log_Nat"
begin

section \<open>Persistence layer\<close>

text \<open>
  The three Sequelize models. \<open>models/User.js\<close>: an auto-incremented integer
  primary key and a name. \<open>models/Book.js\<close>: the default primary key, a name and
  an \<open>averageRating\<close> column (default 0) that no helper ever writes.
  \<open>models/UserBooks.js\<close>: the join row, whose primary key is the pair
  (\<open>userId\<close>, \<open>bookId\<close>); \<open>userScore\<close> defaults to 0 and
  \<open>isCurrentlyBorrowed\<close> to true. The \<open>createdAt\<close>/\<open>updatedAt\<close>
  timestamps are wall-clock values that no helper reads; they are left out.
\<close>

record User =
  User_id :: int
  User_name :: string

record Book =
  Book_id :: int
  Book_name :: string
  averageRating :: rat

record UserBooks =
  userId :: int
  bookId :: int
  userScore :: int
  isCurrentlyBorrowed :: bool

text \<open>
  Every statement that changes the database, in the order issued. The two
  \<open>UPDATE\<close>s of the helpers have the same shape: they set
  \<open>isCurrentlyBorrowed\<close> and \<open>userScore\<close> on the rows of one
  (\<open>userId\<close>, \<open>bookId\<close>) pair.
\<close>

datatype stmt =
    Insert_User User
  | Insert_Book Book
  | Insert_UserBooks UserBooks
  | Update_UserBooks int int bool int

text \<open>
  The database: the three tables in row order, and the journal of the write
  statements executed so far (oldest first).
\<close>

record db =
  users :: "User list"
  books :: "Book list"
  userBooks :: "UserBooks list"
  journal :: "stmt list"

definition empty_db :: db where
  "empty_db = \<lparr>users = [], books = [], userBooks = [], journal = []\<rparr>"

text \<open>What a query or statement can throw.\<close>

datatype error = UniqueConstraintError

subsection \<open>The ORM calls the helpers make\<close>

definition User_findByPk :: "int \<Rightarrow> db \<Rightarrow> User option" where
  "User_findByPk uid s = find (\<lambda>u. User_id u = uid) (users s)"

definition Book_findByPk :: "int \<Rightarrow> db \<Rightarrow> Book option" where
  "Book_findByPk bid s = find (\<lambda>b. Book_id b = bid) (books s)"

text \<open>\<open>UserBooks.findOne({where})\<close>: the first row that satisfies the condition.\<close>

definition UserBooks_findOne :: "(UserBooks \<Rightarrow> bool) \<Rightarrow> db \<Rightarrow> UserBooks option" where
  "UserBooks_findOne wh s = find wh (userBooks s)"

text \<open>
  \<open>UPDATE UserBooks SET isCurrentlyBorrowed, userScore WHERE userId AND bookId\<close>:
  issued by \<open>UserBooks.update(values, {where: {bookId, userId}})\<close> and by
  \<open>entry.update(values)\<close>, which addresses the entry by its primary key.
\<close>

definition set_row :: "int \<Rightarrow> int \<Rightarrow> bool \<Rightarrow> int \<Rightarrow> UserBooks \<Rightarrow> UserBooks" where
  "set_row uid bid b sc r =
     (if userId r = uid \<and> bookId r = bid
      then r\<lparr>isCurrentlyBorrowed := b, userScore := sc\<rparr> else r)"

definition UserBooks_update :: "int \<Rightarrow> int \<Rightarrow> bool \<Rightarrow> int \<Rightarrow> db \<Rightarrow> db" where
  "UserBooks_update uid bid b sc s =
     s\<lparr>userBooks := map (set_row uid bid b sc) (userBooks s),
       journal := journal s @ [Update_UserBooks uid bid b sc]\<rparr>"

text \<open>
  \<open>UserBooks.create(row)\<close>: an \<open>INSERT\<close>, which the primary key
  (\<open>userId\<close>, \<open>bookId\<close>) rejects when the pair is already in the table.
\<close>

definition UserBooks_create :: "UserBooks \<Rightarrow> db \<Rightarrow> error + db" where
  "UserBooks_create r s =
     (if \<exists>r' \<in> set (userBooks s). userId r' = userId r \<and> bookId r' = bookId r
      then Inl UniqueConstraintError
      else Inr (s\<lparr>userBooks := userBooks s @ [r],
                  journal := journal s @ [Insert_UserBooks r]\<rparr>))"

section \<open>JavaScript values\<close>

text \<open>
  The values the helpers return and the routes serialise. A finite JavaScript
  number is a rational; a property list keeps the order in which the object
  literal lists its keys.
\<close>

datatype json =
    JUndefined
  | JNull
  | JNum rat
  | JStr string
  | JArr "json list"
  | JObj "(string \<times> json) list"

subsection \<open>Number arithmetic (IEEE 754 binary64)\<close>







subsection \<open>\<open>Number.prototype.toFixed\<close>\<close>

fun digits :: "nat \<Rightarrow> string" where
  "digits n =
     (if n < 10 then [''0123456789'' ! n]
      else digits (n div 10) @ [''0123456789'' ! (n mod 10)])"




text \<open>The number a string of decimal digits denotes.\<close>

definition decimal :: "string \<Rightarrow> nat" where
  "decimal cs = foldl (\<lambda>a c. 10 * a + (of_char c - 48)) 0 cs"

section \<open>Lending service (\<open>helpers/booksHelper.js\<close>)\<close>

record result =
  success :: bool
  message :: string
  status :: nat

definition borrowBook :: "int \<Rightarrow> int \<Rightarrow> db \<Rightarrow> error + (result \<times> db)" where
  "borrowBook uid bid s =
     (let user = User_findByPk uid s;
          book = Book_findByPk bid s
      in if user = None \<or> book = None
         then Inr (\<lparr>success = False, message = ''User or Book not found'', status = 404\<rparr>, s)
         else
           (case UserBooks_findOne (\<lambda>r. bookId r = bid \<and> isCurrentlyBorrowed r) s of
              Some existingEntry \<Rightarrow>
                (let byUserMessage =
                       (if userId existingEntry = uid then '' this user'' else '' someone else'')
                 in Inr (\<lparr>success = False,
                          message = ''Book is already borrowed by'' @ byUserMessage,
                          status = 400\<rparr>, s))
            | None \<Rightarrow>
                (case
                   (case UserBooks_findOne
                           (\<lambda>r. bookId r = bid \<and> userId r = uid \<and> \<not> isCurrentlyBorrowed r) s of
                      Some isPreviouslyBorrowed \<Rightarrow> Inr (UserBooks_update uid bid True 0 s)
                    | None \<Rightarrow>
                        UserBooks_create
                          \<lparr>userId = uid, bookId = bid, userScore = 0,
                           isCurrentlyBorrowed = True\<rparr> s)
                 of
                   Inl e \<Rightarrow> Inl e
                 | Inr s' \<Rightarrow>
                     Inr (\<lparr>success = True, message = ''Book borrowed successfully'',
                          status = 200\<rparr>, s'))))"

definition returnBook :: "int \<Rightarrow> int \<Rightarrow> int \<Rightarrow> db \<Rightarrow> result \<times> db" where
  "returnBook uid bid score s =
     (let user = User_findByPk uid s;
          book = Book_findByPk bid s
      in if user = None \<or> book = None
         then (\<lparr>success = False, message = ''User or Book not found'', status = 404\<rparr>, s)
         else
           (case UserBooks_findOne
                   (\<lambda>r. userId r = uid \<and> bookId r = bid \<and> isCurrentlyBorrowed r) s of
              None \<Rightarrow>
                (\<lparr>success = False,
                  message = ''This book is not currently borrowed by the user'',
                  status = 400\<rparr>, s)
            | Some userBookEntry \<Rightarrow>
                (\<lparr>success = True, message = ''Book returned successfully'', status = 200\<rparr>,
                 UserBooks_update (userId userBookEntry) (bookId userBookEntry) False score s)))"


text \<open>
  \<open>book.Users\<close> after \<open>Book.findByPk(bookId, {include: User})\<close>: the join
  rows of the book, each with the user it references, in row order.
\<close>

definition Book_Users :: "int \<Rightarrow> db \<Rightarrow> (User \<times> UserBooks) list" where
  "Book_Users bid s =
     List.map_filter
       (\<lambda>r. if bookId r = bid
            then map_option (\<lambda>u. (u, r)) (User_findByPk (userId r) s) else None)
       (userBooks s)"


section \<open>User helpers (\<open>helpers/usersHelper.js\<close>)\<close>

text \<open>
  The key of an auto-incremented table: one more than the largest key in use
  (rows are never deleted), 1 in an empty table.
\<close>

definition next_id :: "int list \<Rightarrow> int" where
  "next_id ids = fold max ids 0 + 1"

definition User_create :: "string \<Rightarrow> db \<Rightarrow> User \<times> db" where
  "User_create nm s =
     (let u = \<lparr>User_id = next_id (map User_id (users s)), User_name = nm\<rparr>
      in (u, s\<lparr>users := users s @ [u], journal := journal s @ [Insert_User u]\<rparr>))"

definition Book_create :: "string \<Rightarrow> db \<Rightarrow> Book \<times> db" where
  "Book_create nm s =
     (let b = \<lparr>Book_id = next_id (map Book_id (books s)), Book_name = nm, averageRating = 0\<rparr>
      in (b, s\<lparr>books := books s @ [b], journal := journal s @ [Insert_Book b]\<rparr>))"

text \<open>
  \<open>createUser\<close>: the callback given to \<open>then\<close> awaits \<open>User.create\<close>
  and returns nothing, so the promise resolves to \<open>undefined\<close>.
\<close>

definition createUser :: "string \<Rightarrow> db \<Rightarrow> json \<times> db" where
  "createUser userName s = (let (u, s') = User_create userName s in (JUndefined, s'))"

text \<open>
  \<open>user.Books\<close> after \<open>User.findByPk(userId, {include: Book})\<close>: the join
  rows of the user, each with the book it references, in row order.
\<close>

definition User_Books :: "int \<Rightarrow> db \<Rightarrow> (Book \<times> UserBooks) list" where
  "User_Books uid s =
     List.map_filter
       (\<lambda>r. if userId r = uid
            then map_option (\<lambda>b. (b, r)) (Book_findByPk (bookId r) s) else None)
       (userBooks s)"

definition getUserById :: "int \<Rightarrow> db \<Rightarrow> json" where
  "getUserById uid s =
     (case User_findByPk uid s of
        None \<Rightarrow> JNull
      | Some user \<Rightarrow>
          (let (pastBooks, presentBooks) =
                 fold (\<lambda>(book, ub) (pastBooks, presentBooks).
                         if isCurrentlyBorrowed ub
                         then (pastBooks, presentBooks @ [JObj [(''name'', JStr (Book_name book))]])
                         else (pastBooks @ [JObj [(''name'', JStr (Book_name book)),
                                                  (''userScore'', JNum (of_int (userScore ub)))]],
                               presentBooks))
                      (User_Books uid s) ([], [])
           in JObj [(''id'', JNum (of_int (User_id user))),
                    (''name'', JStr (User_name user)),
                    (''books'', JObj [(''past'', JArr pastBooks),
                                      (''present'', JArr presentBooks)])]))"

section \<open>Routes\<close>

text \<open>
  A response is a status and the value handed to \<open>res.json\<close>. The body of a
  validation failure is the validator's error list, reduced here to its messages.
\<close>

type_synonym response = "nat \<times> json"

definition validation_errors :: "string \<Rightarrow> json" where
  "validation_errors msg = JObj [(''errors'', JArr [JObj [(''msg'', JStr msg)]])]"

text \<open>\<open>POST /users\<close> (\<open>routes/users.js\<close>).\<close>

definition post_users :: "string \<Rightarrow> db \<Rightarrow> response \<times> db" where
  "post_users nm s =
     (if nm = [] then ((400, validation_errors ''Name is required''), s)
      else let (user, s') = createUser nm s in ((201, user), s'))"

text \<open>
  \<open>POST /books\<close> (\<open>routes/books.js\<close>): the insert is started but not
  awaited, and the response body is the pending promise, which serialises as
  the empty object. The insert completes before the next request is served.
\<close>

definition post_books :: "string \<Rightarrow> db \<Rightarrow> response \<times> db" where
  "post_books nm s =
     (if nm = [] then ((400, validation_errors ''Invalid value''), s)
      else let (book, s') = Book_create nm s in ((201, JObj []), s'))"

text \<open>
  \<open>GET /users/:userId\<close> (\<open>routes/users.js\<close>) and \<open>GET /books/:id\<close>
  (\<open>routes/books.js\<close>): 404 when the helper yields \<open>null\<close>, otherwise the
  helper's object with the default status 200.
\<close>

definition get_users_userId :: "int \<Rightarrow> db \<Rightarrow> response" where
  "get_users_userId uid s =
     (let user = getUserById uid s
      in if user = JNull then (404, JObj [(''error'', JStr ''User not found'')])
         else (200, user))"


text \<open>
  \<open>POST /users/:userId/borrow/:bookId\<close> and
  \<open>POST /users/:userId/return/:bookId\<close> (\<open>routes/users.js\<close>): the helper's
  status, with its message under \<open>message\<close> on success and under \<open>error\<close>
  on failure; whatever the helper throws is caught and answered with 500.
\<close>

definition post_borrow :: "int \<Rightarrow> int \<Rightarrow> db \<Rightarrow> response \<times> db" where
  "post_borrow uid bid s =
     (case borrowBook uid bid s of
        Inr (borrowBookResult, s') \<Rightarrow>
          (if success borrowBookResult
           then ((status borrowBookResult,
                  JObj [(''message'', JStr (message borrowBookResult))]), s')
           else ((status borrowBookResult,
                  JObj [(''error'', JStr (message borrowBookResult))]), s'))
      | Inl e \<Rightarrow>
          ((500, JObj [(''error'', JStr ''An error occurred while borrowing the book'')]), s))"

definition post_return :: "int \<Rightarrow> int \<Rightarrow> int \<Rightarrow> db \<Rightarrow> response \<times> db" where
  "post_return uid bid score s =
     (let (returnedBookResult, s') = returnBook uid bid score s
      in if success returnedBookResult
         then ((status returnedBookResult,
                JObj [(''message'', JStr (message returnedBookResult))]), s')
         else ((status returnedBookResult,
                JObj [(''error'', JStr (message returnedBookResult))]), s'))"

section \<open>Sequential histories\<close>

datatype call =
    CreateUser string
  | CreateBook string
  | BorrowBook int int
  | ReturnBook int int int

text \<open>One request, served to completion before the next one arrives.\<close>

fun exec :: "call \<Rightarrow> db \<Rightarrow> db" where
  "exec (CreateUser nm) s = snd (post_users nm s)"
| "exec (CreateBook nm) s = snd (post_books nm s)"
| "exec (BorrowBook uid bid) s = snd (post_borrow uid bid s)"
| "exec (ReturnBook uid bid score) s = snd (post_return uid bid score s)"

definition run :: "call list \<Rightarrow> db" where
  "run calls = fold exec calls empty_db"

section \<open>Consistency of the Loan-link table\<close>

text \<open>
  The primary key of \<open>models/UserBooks.js\<close> (no two rows for one pair) together
  with Invariant A of the specification (no two open rows for one book).
\<close>

definition well_formed :: "UserBooks list \<Rightarrow> bool" where
  "well_formed xs \<longleftrightarrow>
     distinct (map (\<lambda>r. (userId r, bookId r)) xs) \<and>
     (\<forall>b. length (filter (\<lambda>r. bookId r = b \<and> isCurrentlyBorrowed r) xs) \<le> 1)"

text \<open>
  What holds of every row after a sequential history: the user and the book it
  refers to exist, and an open row carries the score 0.
\<close>

definition sound_links :: "db \<Rightarrow> bool" where
  "sound_links s \<longleftrightarrow>
     (\<forall>r \<in> set (userBooks s).
        User_findByPk (userId r) s \<noteq> None \<and> Book_findByPk (bookId r) s \<noteq> None \<and>
        (isCurrentlyBorrowed r \<longrightarrow> userScore r = 0))"

section \<open>Example databases\<close>

definition alice :: User where
  "alice = \<lparr>User_id = 1, User_name = ''Alice''\<rparr>"

definition bob :: User where
  "bob = \<lparr>User_id = 2, User_name = ''Bob''\<rparr>"

definition carol :: User where
  "carol = \<lparr>User_id = 3, User_name = ''Carol''\<rparr>"

definition dune :: Book where
  "dune = \<lparr>Book_id = 1, Book_name = ''Dune'', averageRating = 0\<rparr>"

definition emma :: Book where
  "emma = \<lparr>Book_id = 2, Book_name = ''Emma'', averageRating = 0\<rparr>"

text \<open>Alice holds Dune; nobody has touched Emma.\<close>

definition lent_db :: db where
  "lent_db =
     \<lparr>users = [alice, bob], books = [dune, emma],
      userBooks = [\<lparr>userId = 1, bookId = 1, userScore = 0, isCurrentlyBorrowed = True\<rparr>],
      journal = []\<rparr>"

text \<open>Alice has returned Dune with score 4.\<close>

definition returned_db :: db where
  "returned_db =
     \<lparr>users = [alice, bob], books = [dune, emma],
      userBooks = [\<lparr>userId = 1, bookId = 1, userScore = 4, isCurrentlyBorrowed = False\<rparr>],
      journal = []\<rparr>"

text \<open>Alice has returned Dune and holds Emma; Bob holds Dune.\<close>

definition history_db :: db where
  "history_db =
     \<lparr>users = [alice, bob], books = [dune, emma],
      userBooks = [\<lparr>userId = 1, bookId = 1, userScore = 4, isCurrentlyBorrowed = False\<rparr>,
                   \<lparr>userId = 2, bookId = 1, userScore = 0, isCurrentlyBorrowed = True\<rparr>,
                   \<lparr>userId = 1, bookId = 2, userScore = 0, isCurrentlyBorrowed = True\<rparr>],
      journal = []\<rparr>"


section \<open>Properties\<close>

subsection \<open>Lookups\<close>

lemma find_None_filter: "find P xs = None \<Longrightarrow> filter P xs = []"
  by (induction xs) (auto split: if_splits)

lemma find_Some_props: "find P xs = Some x \<Longrightarrow> P x \<and> x \<in> set xs"
  by (induction xs) (auto split: if_splits)

lemma borrowBook_never_throws: "borrowBook uid bid s \<noteq> Inl e"
  by (auto simp: borrowBook_def Let_def UserBooks_create_def UserBooks_findOne_def
           find_None_iff split: option.splits sum.splits if_splits)

lemma snd_post_return: "snd (post_return uid bid score s) = snd (returnBook uid bid score s)"
  by (simp add: post_return_def split: prod.splits)

lemmas demo_defs = lent_db_def returned_db_def alice_def bob_def carol_def dune_def emma_def
  User_findByPk_def Book_findByPk_def UserBooks_findOne_def

lemma length_filter_map_set_row:
  "length (filter (\<lambda>r. userId r = u \<and> bookId r = b) (map (set_row uid bid opn sc) xs))
   = length (filter (\<lambda>r. userId r = u \<and> bookId r = b) xs)"
  by (induction xs) (auto simp: set_row_def)

subsection \<open>BorrowBook: the conflict check\<close>

text \<open>
  C2. When the requesting user and the book both exist, BorrowBook fails exactly
  when some Loan-link row of the book is open; the failure is the Conflict
  (status 400, nothing written), and its message says "this user" when the open
  row that the lookup found belongs to the requester and "someone else"
  otherwise. Both are failures, so a user cannot borrow again a book they hold.
\<close>

theorem borrowBook_conflict_iff:
  assumes "User_findByPk uid s \<noteq> None" and "Book_findByPk bid s \<noteq> None"
  shows "\<exists>res s'. borrowBook uid bid s = Inr (res, s') \<and>
     (\<not> success res \<longleftrightarrow>
        (\<exists>r \<in> set (userBooks s). bookId r = bid \<and> isCurrentlyBorrowed r)) \<and>
     (\<not> success res \<longrightarrow> status res = 400 \<and> s' = s) \<and>
     (\<forall>r. UserBooks_findOne (\<lambda>r. bookId r = bid \<and> isCurrentlyBorrowed r) s = Some r \<longrightarrow>
          \<not> success res \<and>
          message res = (if userId r = uid then ''Book is already borrowed by this user''
                         else ''Book is already borrowed by someone else''))"
  using assms
  by (auto simp: borrowBook_def Let_def UserBooks_create_def UserBooks_findOne_def
           find_None_iff dest: find_Some_props
           split: option.splits sum.splits if_splits)

theorem borrowBook_conflict_iff_witness:
  "borrowBook 1 1 lent_db =
     Inr (\<lparr>success = False, message = ''Book is already borrowed by this user'',
           status = 400\<rparr>, lent_db)
   \<and> borrowBook 2 1 lent_db =
     Inr (\<lparr>success = False, message = ''Book is already borrowed by someone else'',
           status = 400\<rparr>, lent_db)
   \<and> (\<exists>res s'. borrowBook 2 2 lent_db = Inr (res, s') \<and> success res)"
proof -
  have u1: "User_findByPk 1 lent_db \<noteq> None" and u2: "User_findByPk 2 lent_db \<noteq> None"
    and b1: "Book_findByPk 1 lent_db \<noteq> None" and b2: "Book_findByPk 2 lent_db \<noteq> None"
    by (simp_all add: demo_defs)
  have found: "UserBooks_findOne (\<lambda>r. bookId r = 1 \<and> isCurrentlyBorrowed r) lent_db =
      Some \<lparr>userId = 1, bookId = 1, userScore = 0, isCurrentlyBorrowed = True\<rparr>"
    by (simp add: demo_defs)
  have none: "\<not> (\<exists>r \<in> set (userBooks lent_db). bookId r = 2 \<and> isCurrentlyBorrowed r)"
    by (simp add: demo_defs)
  from borrowBook_conflict_iff [OF u1 b1] found
  have c1: "borrowBook 1 1 lent_db =
     Inr (\<lparr>success = False, message = ''Book is already borrowed by this user'',
           status = 400\<rparr>, lent_db)"
    by (auto simp: result.equality)
  from borrowBook_conflict_iff [OF u2 b1] found
  have c2: "borrowBook 2 1 lent_db =
     Inr (\<lparr>success = False, message = ''Book is already borrowed by someone else'',
           status = 400\<rparr>, lent_db)"
    by (auto simp: result.equality)
  from borrowBook_conflict_iff [OF u2 b2] none
  have c3: "\<exists>res s'. borrowBook 2 2 lent_db = Inr (res, s') \<and> success res"
    by blast
  from c1 c2 c3 show ?thesis by blast
qed

subsection \<open>BorrowBook: reopening or creating the row\<close>

text \<open>
  C3. When the user and the book exist and no Loan-link row of the book is open,
  BorrowBook succeeds. If the pair (user, book) already has a row (necessarily a
  closed one), that row is reopened: \<open>isCurrentlyBorrowed\<close> becomes true and
  \<open>userScore\<close> becomes 0, and every other row is left as it was. Otherwise
  one new open row for the pair, with score 0, is added. No duplicate is made:
  afterwards the pair has as many rows as before, or one if it had none.
\<close>

theorem borrowBook_success_reopen_or_create:
  assumes "User_findByPk uid s \<noteq> None" and "Book_findByPk bid s \<noteq> None"
    and "\<forall>r \<in> set (userBooks s). bookId r = bid \<longrightarrow> \<not> isCurrentlyBorrowed r"
  shows "\<exists>s'. borrowBook uid bid s =
            Inr (\<lparr>success = True, message = ''Book borrowed successfully'', status = 200\<rparr>, s')
     \<and> userBooks s' =
         (if \<exists>r \<in> set (userBooks s). userId r = uid \<and> bookId r = bid
          then map (\<lambda>r. if userId r = uid \<and> bookId r = bid
                         then r\<lparr>isCurrentlyBorrowed := True, userScore := 0\<rparr> else r)
                   (userBooks s)
          else userBooks s @
                 [\<lparr>userId = uid, bookId = bid, userScore = 0, isCurrentlyBorrowed = True\<rparr>])
     \<and> length (filter (\<lambda>r. userId r = uid \<and> bookId r = bid) (userBooks s')) =
         max 1 (length (filter (\<lambda>r. userId r = uid \<and> bookId r = bid) (userBooks s)))"
proof -
  let ?pair = "\<lambda>r. userId r = uid \<and> bookId r = bid"
  have noopen: "UserBooks_findOne (\<lambda>r. bookId r = bid \<and> isCurrentlyBorrowed r) s = None"
    using assms(3) by (auto simp: UserBooks_findOne_def find_None_iff)
  show ?thesis
  proof (cases "\<exists>r \<in> set (userBooks s). ?pair r")
    case True
    then have closed: "UserBooks_findOne
        (\<lambda>r. bookId r = bid \<and> userId r = uid \<and> \<not> isCurrentlyBorrowed r) s \<noteq> None"
      using assms(3) by (auto simp: UserBooks_findOne_def find_None_iff)
    from True have "filter ?pair (userBooks s) \<noteq> []"
      by (auto simp: filter_empty_conv)
    then have pos: "1 \<le> length (filter ?pair (userBooks s))"
      by (cases "filter ?pair (userBooks s)") auto
    have "set_row uid bid True 0 =
      (\<lambda>r. if userId r = uid \<and> bookId r = bid
            then r\<lparr>isCurrentlyBorrowed := True, userScore := 0\<rparr> else r)"
      by (auto simp: set_row_def fun_eq_iff)
    with True closed noopen pos assms(1,2) show ?thesis
      using length_filter_map_set_row [of uid bid uid bid True 0 "userBooks s"]
      by (auto simp: borrowBook_def Let_def UserBooks_update_def split: option.splits)
  next
    case False
    then have closed: "UserBooks_findOne
        (\<lambda>r. bookId r = bid \<and> userId r = uid \<and> \<not> isCurrentlyBorrowed r) s = None"
      by (auto simp: UserBooks_findOne_def find_None_iff)
    from False have "filter ?pair (userBooks s) = []"
      by (auto simp: filter_empty_conv)
    with False closed noopen assms(1,2) show ?thesis
      by (auto simp: borrowBook_def Let_def UserBooks_create_def split: option.splits)
  qed
qed

theorem borrowBook_success_reopen_or_create_witness:
  "borrowBook 1 1 returned_db =
     Inr (\<lparr>success = True, message = ''Book borrowed successfully'', status = 200\<rparr>,
          returned_db\<lparr>userBooks :=
                        [\<lparr>userId = 1, bookId = 1, userScore = 0, isCurrentlyBorrowed = True\<rparr>],
                      journal := [Update_UserBooks 1 1 True 0]\<rparr>)"
proof -
  have h1: "User_findByPk 1 returned_db \<noteq> None" by (simp add: demo_defs)
  have h2: "Book_findByPk 1 returned_db \<noteq> None" by (simp add: demo_defs)
  have h3: "\<forall>r \<in> set (userBooks returned_db). bookId r = 1 \<longrightarrow> \<not> isCurrentlyBorrowed r"
    by (simp add: demo_defs)
  from borrowBook_success_reopen_or_create [OF h1 h2 h3]
  obtain s' where "borrowBook 1 1 returned_db =
      Inr (\<lparr>success = True, message = ''Book borrowed successfully'', status = 200\<rparr>, s')"
    and "userBooks s' = [\<lparr>userId = 1, bookId = 1, userScore = 0, isCurrentlyBorrowed = True\<rparr>]"
    by (auto simp: returned_db_def)
  then show ?thesis
    by (simp add: borrowBook_def demo_defs UserBooks_update_def set_row_def)
qed

subsection \<open>ReturnBook\<close>

text \<open>
  C5. When the user and the book exist, ReturnBook fails exactly when no
  Loan-link row of the exact pair (user, book) is open, whoever else may hold
  the book; the failure is InvalidState (status 400) and leaves the database
  unchanged. Otherwise the call succeeds and sets, on the row of the pair,
  \<open>isCurrentlyBorrowed\<close> to false and \<open>userScore\<close> to the score given,
  whatever integer it is; rows of other pairs keep their values.
\<close>

theorem returnBook_invalid_state_iff:
  assumes "User_findByPk uid s \<noteq> None" and "Book_findByPk bid s \<noteq> None"
    and "returnBook uid bid score s = (res, s')"
  shows "(\<not> success res \<longleftrightarrow>
            \<not> (\<exists>r \<in> set (userBooks s).
                  userId r = uid \<and> bookId r = bid \<and> isCurrentlyBorrowed r))
     \<and> (\<not> success res \<longrightarrow>
            status res = 400
            \<and> message res = ''This book is not currently borrowed by the user''
            \<and> s' = s)
     \<and> (success res \<longrightarrow>
            userBooks s' =
              map (\<lambda>r. if userId r = uid \<and> bookId r = bid
                        then r\<lparr>isCurrentlyBorrowed := False, userScore := score\<rparr> else r)
                  (userBooks s))"
proof -
  have eq: "set_row uid bid False score =
      (\<lambda>r. if userId r = uid \<and> bookId r = bid
            then r\<lparr>isCurrentlyBorrowed := False, userScore := score\<rparr> else r)"
    by (auto simp: set_row_def fun_eq_iff)
  show ?thesis
    using assms eq
    by (auto simp: returnBook_def Let_def UserBooks_update_def UserBooks_findOne_def
             find_None_iff dest!: find_Some_props split: option.splits)
qed

theorem returnBook_invalid_state_iff_witness:
  "returnBook 2 1 5 lent_db =
     (\<lparr>success = False, message = ''This book is not currently borrowed by the user'',
       status = 400\<rparr>, lent_db)
   \<and> returnBook 1 1 (- 7) lent_db =
     (\<lparr>success = True, message = ''Book returned successfully'', status = 200\<rparr>,
      lent_db\<lparr>userBooks :=
                 [\<lparr>userId = 1, bookId = 1, userScore = - 7, isCurrentlyBorrowed = False\<rparr>],
               journal := [Update_UserBooks 1 1 False (- 7)]\<rparr>)"
proof -
  have u1: "User_findByPk 1 lent_db \<noteq> None" and u2: "User_findByPk 2 lent_db \<noteq> None"
    and b1: "Book_findByPk 1 lent_db \<noteq> None"
    by (simp_all add: demo_defs)
  have r1: "returnBook 2 1 5 lent_db =
     (\<lparr>success = False, message = ''This book is not currently borrowed by the user'',
       status = 400\<rparr>, lent_db)"
    by (simp add: returnBook_def demo_defs)
  have r2: "returnBook 1 1 (- 7) lent_db =
     (\<lparr>success = True, message = ''Book returned successfully'', status = 200\<rparr>,
      lent_db\<lparr>userBooks :=
                 [\<lparr>userId = 1, bookId = 1, userScore = - 7, isCurrentlyBorrowed = False\<rparr>],
               journal := [Update_UserBooks 1 1 False (- 7)]\<rparr>)"
    by (simp add: returnBook_def demo_defs UserBooks_update_def set_row_def)
  show ?thesis
    using returnBook_invalid_state_iff [OF u2 b1 r1] returnBook_invalid_state_iff [OF u1 b1 r2]
      r1 r2 by simp
qed

subsection \<open>A borrow that fails writes nothing\<close>

text \<open>
  C10. Every failing BorrowBook call, whether the user or the book is missing
  or the book already has an open Loan-link, creates no row and modifies none:
  the Loan-link store, and in fact the whole database, is the same after the
  call as before. (By \<open>borrowBook_never_throws\<close> these reported failures are
  the only ones.)
\<close>

theorem borrowBook_failure_no_write:
  assumes "borrowBook uid bid s = Inr (res, s')" and "\<not> success res"
  shows "userBooks s' = userBooks s \<and> s' = s"
  using assms
  by (auto simp: borrowBook_def Let_def UserBooks_create_def
           split: option.splits sum.splits if_splits)

theorem borrowBook_failure_no_write_witness:
  "borrowBook 3 1 lent_db =
     Inr (\<lparr>success = False, message = ''User or Book not found'', status = 404\<rparr>, lent_db)
   \<and> userBooks lent_db = userBooks lent_db \<and> lent_db = lent_db"
proof -
  have run: "borrowBook 3 1 lent_db =
     Inr (\<lparr>success = False, message = ''User or Book not found'', status = 404\<rparr>, lent_db)"
    by (simp add: borrowBook_def demo_defs)
  show ?thesis
    using run borrowBook_failure_no_write [OF run] by simp
qed

subsection \<open>Invariant A along sequential histories\<close>

lemma map_key_set_row:
  "map (\<lambda>r. (userId r, bookId r)) (map (set_row uid bid opn sc) xs)
   = map (\<lambda>r. (userId r, bookId r)) xs"
  by (induction xs) (auto simp: set_row_def)

lemma distinct_key_filter_le_1:
  "distinct (map (\<lambda>r. (userId r, bookId r)) xs) \<Longrightarrow>
   length (filter (\<lambda>r. userId r = u \<and> bookId r = b) xs) \<le> 1"
proof (induction xs)
  case Nil
  then show ?case by simp
next
  case (Cons x xs)
  show ?case
  proof (cases "userId x = u \<and> bookId x = b")
    case True
    with Cons.prems have "\<forall>r \<in> set xs. \<not> (userId r = u \<and> bookId r = b)"
      by (auto simp: image_iff)
    then have "filter (\<lambda>r. userId r = u \<and> bookId r = b) xs = []"
      by (simp add: filter_empty_conv)
    with True show ?thesis by simp
  next
    case False
    with Cons show ?thesis by auto
  qed
qed

lemma open_count_reopen_other:
  "b \<noteq> bid \<Longrightarrow>
   length (filter (\<lambda>r. bookId r = b \<and> isCurrentlyBorrowed r) (map (set_row uid bid opn sc) xs))
   = length (filter (\<lambda>r. bookId r = b \<and> isCurrentlyBorrowed r) xs)"
  by (induction xs) (auto simp: set_row_def)

lemma open_count_reopen_same:
  "\<forall>r \<in> set xs. bookId r = bid \<longrightarrow> \<not> isCurrentlyBorrowed r \<Longrightarrow>
   length (filter (\<lambda>r. bookId r = bid \<and> isCurrentlyBorrowed r) (map (set_row uid bid True sc) xs))
   = length (filter (\<lambda>r. userId r = uid \<and> bookId r = bid) xs)"
  by (induction xs) (auto simp: set_row_def)

lemma open_count_close:
  "length (filter (\<lambda>r. bookId r = b \<and> isCurrentlyBorrowed r) (map (set_row uid bid False sc) xs))
   \<le> length (filter (\<lambda>r. bookId r = b \<and> isCurrentlyBorrowed r) xs)"
  by (induction xs) (auto simp: set_row_def)

lemma well_formed_borrowBook:
  assumes "well_formed (userBooks s)" and "borrowBook uid bid s = Inr (res, s')"
  shows "well_formed (userBooks s')"
proof (cases "success res")
  case False
  with assms show ?thesis
    by (auto simp: borrowBook_def Let_def UserBooks_create_def
           split: option.splits sum.splits if_splits)
next
  case True
  let ?xs = "userBooks s"
  from True assms have "find (\<lambda>r. bookId r = bid \<and> isCurrentlyBorrowed r) ?xs = None"
    by (auto simp: borrowBook_def Let_def UserBooks_findOne_def
           split: option.splits sum.splits if_splits)
  then have noopen: "\<forall>r \<in> set ?xs. bookId r = bid \<longrightarrow> \<not> isCurrentlyBorrowed r"
    by (auto simp: find_None_iff)
  then have zero: "filter (\<lambda>r. bookId r = bid \<and> isCurrentlyBorrowed r) ?xs = []"
    by (auto simp: filter_empty_conv)
  from True assms consider
      (upd) "userBooks s' = map (set_row uid bid True 0) ?xs"
    | (ins) "userBooks s' = ?xs @
               [\<lparr>userId = uid, bookId = bid, userScore = 0, isCurrentlyBorrowed = True\<rparr>]"
            "\<forall>r \<in> set ?xs. \<not> (userId r = uid \<and> bookId r = bid)"
    by (auto simp: borrowBook_def Let_def UserBooks_create_def UserBooks_update_def
           split: option.splits sum.splits if_splits)
  then show ?thesis
  proof cases
    case upd
    have "length (filter (\<lambda>r. bookId r = b \<and> isCurrentlyBorrowed r) (userBooks s')) \<le> 1" for b
    proof (cases "b = bid")
      case True
      have "length (filter (\<lambda>r. bookId r = bid \<and> isCurrentlyBorrowed r)
                (map (set_row uid bid True 0) ?xs))
            = length (filter (\<lambda>r. userId r = uid \<and> bookId r = bid) ?xs)"
        by (rule open_count_reopen_same [OF noopen])
      also have "\<dots> \<le> 1"
        using assms(1) distinct_key_filter_le_1 [of ?xs uid bid] by (simp add: well_formed_def)
      finally show ?thesis unfolding upd True .
    next
      case False
      have "length (filter (\<lambda>r. bookId r = b \<and> isCurrentlyBorrowed r)
                (map (set_row uid bid True 0) ?xs))
            = length (filter (\<lambda>r. bookId r = b \<and> isCurrentlyBorrowed r) ?xs)"
        by (rule open_count_reopen_other [OF False])
      also have "\<dots> \<le> 1"
        using assms(1) by (simp add: well_formed_def)
      finally show ?thesis unfolding upd .
    qed
    moreover have "distinct (map (\<lambda>r. (userId r, bookId r)) (userBooks s'))"
      unfolding upd map_key_set_row using assms(1) by (simp add: well_formed_def)
    ultimately show ?thesis
      unfolding well_formed_def by blast
  next
    case ins
    have "length (filter (\<lambda>r. bookId r = b \<and> isCurrentlyBorrowed r) (userBooks s')) \<le> 1" for b
      using ins(1) zero assms(1) by (cases "b = bid") (auto simp: well_formed_def)
    moreover have "distinct (map (\<lambda>r. (userId r, bookId r)) (userBooks s'))"
      using ins assms(1) by (auto simp: well_formed_def image_iff)
    ultimately show ?thesis by (simp add: well_formed_def)
  qed
qed

lemma well_formed_returnBook:
  assumes "well_formed (userBooks s)"
  shows "well_formed (userBooks (snd (returnBook uid bid score s)))"
proof -
  have "userBooks (snd (returnBook uid bid score s)) = userBooks s
      \<or> (\<exists>u b. userBooks (snd (returnBook uid bid score s)) =
            map (set_row u b False score) (userBooks s))"
    by (auto simp: returnBook_def Let_def UserBooks_update_def split: option.splits)
  then show ?thesis
  proof (elim disjE exE)
    fix u b
    assume eq: "userBooks (snd (returnBook uid bid score s)) =
            map (set_row u b False score) (userBooks s)"
    have "length (filter (\<lambda>r. bookId r = b' \<and> isCurrentlyBorrowed r)
             (map (set_row u b False score) (userBooks s))) \<le> 1" for b'
    proof -
      have "length (filter (\<lambda>r. bookId r = b' \<and> isCurrentlyBorrowed r) (userBooks s)) \<le> 1"
        using assms by (simp add: well_formed_def)
      with open_count_close [of b' u b score "userBooks s"] show ?thesis
        by (rule order_trans)
    qed
    moreover have "distinct (map (\<lambda>r. (userId r, bookId r))
        (map (set_row u b False score) (userBooks s)))"
      unfolding map_key_set_row using assms by (simp add: well_formed_def)
    ultimately show ?thesis
      unfolding well_formed_def eq by blast
  qed (use assms in simp)
qed

lemma well_formed_exec:
  assumes "well_formed (userBooks s)"
  shows "well_formed (userBooks (exec c s))"
proof (cases c)
  case (CreateUser nm)
  with assms show ?thesis
    by (simp add: post_users_def createUser_def User_create_def Let_def)
next
  case (CreateBook nm)
  with assms show ?thesis
    by (simp add: post_books_def Book_create_def Let_def)
next
  case (BorrowBook uid bid)
  with assms show ?thesis
    using well_formed_borrowBook [of s uid bid]
    by (auto simp: post_borrow_def split: sum.splits)
next
  case (ReturnBook uid bid score)
  with assms show ?thesis
    by (simp add: snd_post_return well_formed_returnBook)
qed

lemma well_formed_fold:
  "well_formed (userBooks s) \<Longrightarrow> well_formed (userBooks (fold exec calls s))"
  by (induction calls arbitrary: s) (simp_all add: well_formed_exec)

text \<open>
  C1. Starting from the empty database, after every sequence of CreateUser,
  CreateBook, BorrowBook and ReturnBook requests served one after the other, each
  book has at most one Loan-link row with \<open>isCurrentlyBorrowed\<close> true.
\<close>

theorem at_most_one_open_link_per_book:
  "length (filter (\<lambda>r. bookId r = bid \<and> isCurrentlyBorrowed r) (userBooks (run calls))) \<le> 1"
proof -
  have "well_formed (userBooks empty_db)"
    by (simp add: well_formed_def empty_db_def)
  then have "well_formed (userBooks (run calls))"
    unfolding run_def by (rule well_formed_fold)
  then show ?thesis
    by (simp add: well_formed_def)
qed

subsection \<open>BorrowBook: what is written\<close>

text \<open>
  C4, as the code has it. A BorrowBook call never touches a User or a Book
  record. A successful call issues exactly one write statement on the Loan-link
  table: either the \<open>INSERT\<close> of one new open row, or one \<open>UPDATE\<close>
  of the rows of the pair, which changes exactly one row when the pairs of the
  table are distinct, as the primary key makes them. A failing call writes
  nothing.
\<close>

theorem borrowBook_one_write_on_success:
  assumes "borrowBook uid bid s = Inr (res, s')"
  shows "users s' = users s \<and> books s' = books s \<and>
     (if success res
      then (journal s' =
              journal s @ [Insert_UserBooks
                \<lparr>userId = uid, bookId = bid, userScore = 0, isCurrentlyBorrowed = True\<rparr>]
            \<and> userBooks s' = userBooks s @
                [\<lparr>userId = uid, bookId = bid, userScore = 0, isCurrentlyBorrowed = True\<rparr>])
           \<or> (journal s' = journal s @ [Update_UserBooks uid bid True 0]
               \<and> length (userBooks s') = length (userBooks s)
               \<and> (distinct (map (\<lambda>r. (userId r, bookId r)) (userBooks s)) \<longrightarrow>
                    (\<exists>!i. i < length (userBooks s) \<and> userBooks s' ! i \<noteq> userBooks s ! i)))
      else journal s' = journal s \<and> userBooks s' = userBooks s)"
proof (cases "success res")
  case False
  with assms show ?thesis
    by (auto simp: borrowBook_def Let_def UserBooks_create_def
           split: option.splits sum.splits if_splits)
next
  case True
  let ?xs = "userBooks s"
  let ?k = "\<lambda>r. (userId r, bookId r)"
  from True assms have noopen: "find (\<lambda>r. bookId r = bid \<and> isCurrentlyBorrowed r) ?xs = None"
    by (auto simp: borrowBook_def Let_def UserBooks_findOne_def
           split: option.splits sum.splits if_splits)
  show ?thesis
  proof (cases "find (\<lambda>r. bookId r = bid \<and> userId r = uid \<and> \<not> isCurrentlyBorrowed r) ?xs")
    case None
    with True assms noopen show ?thesis
      by (auto simp: borrowBook_def Let_def UserBooks_findOne_def UserBooks_create_def
           split: option.splits sum.splits if_splits)
  next
    case (Some r0)
    with True assms noopen have s': "s' = UserBooks_update uid bid True 0 s"
      by (auto simp: borrowBook_def Let_def UserBooks_findOne_def
           split: option.splits sum.splits if_splits)
    have changed: "set_row uid bid True 0 r \<noteq> r \<longleftrightarrow> userId r = uid \<and> bookId r = bid"
      if "r \<in> set ?xs" for r
    proof -
      from noopen that have "bookId r = bid \<longrightarrow> \<not> isCurrentlyBorrowed r"
        by (auto simp: find_None_iff)
      then show ?thesis
        by (auto simp: set_row_def dest: arg_cong [where f = isCurrentlyBorrowed])
    qed
    have uniq: "\<exists>!i. i < length ?xs \<and> map (set_row uid bid True 0) ?xs ! i \<noteq> ?xs ! i"
      if d: "distinct (map ?k ?xs)"
    proof -
      from Some have "r0 \<in> set ?xs" "userId r0 = uid \<and> bookId r0 = bid"
        by (auto dest: find_Some_props)
      then obtain i where i: "i < length ?xs" "?xs ! i = r0"
        by (auto simp: in_set_conv_nth)
      show ?thesis
      proof (rule ex1I [of _ i])
        show "i < length ?xs \<and> map (set_row uid bid True 0) ?xs ! i \<noteq> ?xs ! i"
          using i \<open>r0 \<in> set ?xs\<close> \<open>userId r0 = uid \<and> bookId r0 = bid\<close> changed [of r0]
          by simp
      next
        fix j assume "j < length ?xs \<and> map (set_row uid bid True 0) ?xs ! j \<noteq> ?xs ! j"
        then have j: "j < length ?xs" and "set_row uid bid True 0 (?xs ! j) \<noteq> ?xs ! j"
          by auto
        then have "userId (?xs ! j) = uid \<and> bookId (?xs ! j) = bid"
          using changed [of "?xs ! j"] by simp
        then have "map ?k ?xs ! j = map ?k ?xs ! i"
          using i j \<open>userId r0 = uid \<and> bookId r0 = bid\<close> by simp
        moreover have "j < length (map ?k ?xs)" "i < length (map ?k ?xs)"
          using i j by simp_all
        ultimately show "j = i"
          using d nth_eq_iff_index_eq [of "map ?k ?xs" j i] by blast
      qed
    qed
    from s' True uniq show ?thesis
      by (simp add: UserBooks_update_def)
  qed
qed

theorem borrowBook_one_write_on_success_witness:
  "borrowBook 1 1 returned_db =
     Inr (\<lparr>success = True, message = ''Book borrowed successfully'', status = 200\<rparr>,
          returned_db\<lparr>userBooks :=
                        [\<lparr>userId = 1, bookId = 1, userScore = 0, isCurrentlyBorrowed = True\<rparr>],
                      journal := [Update_UserBooks 1 1 True 0]\<rparr>)
   \<and> distinct (map (\<lambda>r. (userId r, bookId r)) (userBooks returned_db))
   \<and> (\<exists>!i. i < length (userBooks returned_db) \<and>
         [\<lparr>userId = 1, bookId = 1, userScore = 0, isCurrentlyBorrowed = True\<rparr>] ! i
           \<noteq> userBooks returned_db ! i)"
proof -
  have run: "borrowBook 1 1 returned_db =
     Inr (\<lparr>success = True, message = ''Book borrowed successfully'', status = 200\<rparr>,
          returned_db\<lparr>userBooks :=
                        [\<lparr>userId = 1, bookId = 1, userScore = 0, isCurrentlyBorrowed = True\<rparr>],
                      journal := [Update_UserBooks 1 1 True 0]\<rparr>)"
    by (simp add: borrowBook_def demo_defs UserBooks_update_def set_row_def)
  have d: "distinct (map (\<lambda>r. (userId r, bookId r)) (userBooks returned_db))"
    by (simp add: returned_db_def)
  from borrowBook_one_write_on_success [OF run] d
  have "\<exists>!i. i < length (userBooks returned_db) \<and>
         [\<lparr>userId = 1, bookId = 1, userScore = 0, isCurrentlyBorrowed = True\<rparr>] ! i
           \<noteq> userBooks returned_db ! i"
    by (simp add: returned_db_def)
  with run d show ?thesis by blast
qed

text \<open>
  C4 as stated, that every call performs exactly one write, fails for a call that
  fails: borrowing in the empty database reports that the user or book is
  missing and the journal of writes stays empty.
\<close>

theorem borrowBook_every_call_one_write_counterexample:
  "borrowBook 1 1 empty_db =
     Inr (\<lparr>success = False, message = ''User or Book not found'', status = 404\<rparr>, empty_db)
   \<and> journal empty_db = []"
  by (simp add: borrowBook_def empty_db_def User_findByPk_def)

subsection \<open>GetUserWithLoans\<close>

lemma partition_fold:
  "fold (\<lambda>(book, ub) (pastBooks, presentBooks).
           if isCurrentlyBorrowed ub
           then (pastBooks, presentBooks @ [g book])
           else (pastBooks @ [f book ub], presentBooks))
        xs (past, present)
   = (past @ map (\<lambda>(book, ub). f book ub) (filter (\<lambda>(book, ub). \<not> isCurrentlyBorrowed ub) xs),
      present @ map (\<lambda>(book, ub). g book) (filter (\<lambda>(book, ub). isCurrentlyBorrowed ub) xs))"
  by (induction xs arbitrary: past present) (auto split: prod.splits)

lemma set_map_filter_conv:
  "set (List.map_filter f xs) = {y. \<exists>x \<in> set xs. f x = Some y}"
  by (induction xs) (auto split: option.splits)

lemma set_User_Books:
  "set (User_Books uid s) =
     {(b, r). r \<in> set (userBooks s) \<and> userId r = uid \<and> Book_findByPk (bookId r) s = Some b}"
  by (auto simp: User_Books_def set_map_filter_conv split: if_splits)

text \<open>
  C8. \<open>getUserById\<close> yields \<open>null\<close> (NotFound at the route) exactly when no
  user has the id. Otherwise it yields the user with the books partitioned:
  every associated row with \<open>isCurrentlyBorrowed\<close> true appears in
  \<open>present\<close> as an object holding only the book's name, and every row with
  \<open>isCurrentlyBorrowed\<close> false appears in \<open>past\<close> as an object holding the
  book's name and the stored \<open>userScore\<close>. The associated rows are the
  user's join rows together with the book each refers to.
\<close>

theorem getUserById_partition:
  "(getUserById uid s = JNull \<longleftrightarrow> \<not> (\<exists>u \<in> set (users s). User_id u = uid))
   \<and> get_users_userId uid s =
        (if \<exists>u \<in> set (users s). User_id u = uid then (200, getUserById uid s)
         else (404, JObj [(''error'', JStr ''User not found'')]))
   \<and> (\<forall>user. User_findByPk uid s = Some user \<longrightarrow>
        getUserById uid s =
          JObj [(''id'', JNum (of_int (User_id user))),
                (''name'', JStr (User_name user)),
                (''books'',
                 JObj [(''past'',
                        JArr (map (\<lambda>(book, ub).
                                     JObj [(''name'', JStr (Book_name book)),
                                           (''userScore'', JNum (of_int (userScore ub)))])
                                  (filter (\<lambda>(book, ub). \<not> isCurrentlyBorrowed ub)
                                          (User_Books uid s)))),
                       (''present'',
                        JArr (map (\<lambda>(book, ub). JObj [(''name'', JStr (Book_name book))])
                                  (filter (\<lambda>(book, ub). isCurrentlyBorrowed ub)
                                          (User_Books uid s))))])])
   \<and> set (User_Books uid s) =
        {(b, r). r \<in> set (userBooks s) \<and> userId r = uid
                 \<and> Book_findByPk (bookId r) s = Some b}"
proof (intro conjI allI impI)
  show null: "getUserById uid s = JNull \<longleftrightarrow> \<not> (\<exists>u \<in> set (users s). User_id u = uid)"
    by (auto simp: getUserById_def User_findByPk_def find_None_iff
             dest: find_Some_props split: option.splits prod.splits)
  show "get_users_userId uid s =
        (if \<exists>u \<in> set (users s). User_id u = uid then (200, getUserById uid s)
         else (404, JObj [(''error'', JStr ''User not found'')]))"
    using null by (simp add: get_users_userId_def Let_def)
next
  fix user assume "User_findByPk uid s = Some user"
  then show "getUserById uid s =
          JObj [(''id'', JNum (of_int (User_id user))),
                (''name'', JStr (User_name user)),
                (''books'',
                 JObj [(''past'',
                        JArr (map (\<lambda>(book, ub).
                                     JObj [(''name'', JStr (Book_name book)),
                                           (''userScore'', JNum (of_int (userScore ub)))])
                                  (filter (\<lambda>(book, ub). \<not> isCurrentlyBorrowed ub)
                                          (User_Books uid s)))),
                       (''present'',
                        JArr (map (\<lambda>(book, ub). JObj [(''name'', JStr (Book_name book))])
                                  (filter (\<lambda>(book, ub). isCurrentlyBorrowed ub)
                                          (User_Books uid s))))])]"
    by (simp add: getUserById_def partition_fold)
next
  show "set (User_Books uid s) =
        {(b, r). r \<in> set (userBooks s) \<and> userId r = uid
                 \<and> Book_findByPk (bookId r) s = Some b}"
    by (rule set_User_Books)
qed

theorem getUserById_partition_witness:
  "getUserById 1 history_db =
     JObj [(''id'', JNum 1), (''name'', JStr ''Alice''),
           (''books'',
            JObj [(''past'', JArr [JObj [(''name'', JStr ''Dune''), (''userScore'', JNum 4)]]),
                  (''present'', JArr [JObj [(''name'', JStr ''Emma'')]])])]
   \<and> getUserById 3 history_db = JNull
   \<and> get_users_userId 3 history_db = (404, JObj [(''error'', JStr ''User not found'')])"
proof -
  have u: "User_findByPk 1 history_db = Some alice"
    by (simp add: history_db_def demo_defs)
  have ub: "User_Books 1 history_db =
      [(dune, \<lparr>userId = 1, bookId = 1, userScore = 4, isCurrentlyBorrowed = False\<rparr>),
       (emma, \<lparr>userId = 1, bookId = 2, userScore = 0, isCurrentlyBorrowed = True\<rparr>)]"
    by (simp add: User_Books_def history_db_def demo_defs)
  have no3: "\<not> (\<exists>u \<in> set (users history_db). User_id u = 3)"
    by (simp add: history_db_def demo_defs)
  from getUserById_partition [of 1 history_db] u ub
  have "getUserById 1 history_db =
     JObj [(''id'', JNum 1), (''name'', JStr ''Alice''),
           (''books'',
            JObj [(''past'', JArr [JObj [(''name'', JStr ''Dune''), (''userScore'', JNum 4)]]),
                  (''present'', JArr [JObj [(''name'', JStr ''Emma'')]])])]"
    by (simp add: alice_def dune_def emma_def)
  moreover from getUserById_partition [of 3 history_db] no3
  have "getUserById 3 history_db = JNull"
    and "get_users_userId 3 history_db = (404, JObj [(''error'', JStr ''User not found'')])"
    by simp_all
  ultimately show ?thesis by blast
qed

subsection \<open>Creating users and books\<close>

text \<open>
  C9 at a concrete input. Creating the user Alice in the empty database inserts
  the record with id 1, but \<open>createUser\<close> resolves to \<open>undefined\<close>, which
  is what the route sends with status 201; creating the book Dune inserts it,
  and the route answers 201 with the empty object. Neither returns the
  persisted record.
\<close>

theorem createUser_resolves_to_undefined:
  "createUser ''Alice'' empty_db =
     (JUndefined,
      \<lparr>users = [alice], books = [], userBooks = [], journal = [Insert_User alice]\<rparr>)
   \<and> post_users ''Alice'' empty_db =
     ((201, JUndefined),
      \<lparr>users = [alice], books = [], userBooks = [], journal = [Insert_User alice]\<rparr>)
   \<and> post_books ''Dune'' empty_db =
     ((201, JObj []),
      \<lparr>users = [], books = [dune], userBooks = [], journal = [Insert_Book dune]\<rparr>)"
  by (simp add: createUser_def post_users_def post_books_def User_create_def Book_create_def
        empty_db_def alice_def dune_def next_id_def Let_def)

subsection \<open>Double-precision arithmetic\<close>













subsection \<open>What \<open>toFixed(2)\<close> prints\<close>

lemma digit_char_value: "i < 10 \<Longrightarrow> (of_char (''0123456789'' ! i) :: nat) = 48 + i"
proof -
  assume "i < 10"
  then have "i = 0 \<or> i = 1 \<or> i = 2 \<or> i = 3 \<or> i = 4 \<or> i = 5 \<or> i = 6 \<or> i = 7 \<or> i = 8 \<or> i = 9"
    by arith
  then show ?thesis
    by (elim disjE) simp_all
qed

lemma decimal_snoc: "decimal (cs @ [c]) = 10 * decimal cs + (of_char c - 48)"
  by (simp add: decimal_def)

lemma decimal_digits: "decimal (digits n) = n"
proof (induction n rule: digits.induct)
  case (1 n)
  show ?case
  proof (cases "n < 10")
    case True
    then show ?thesis
      by (subst digits.simps) (simp add: decimal_def digit_char_value del: digits.simps)
  next
    case False
    then have "decimal (digits (n div 10)) = n div 10"
      by (rule "1.IH")
    moreover have "n mod 10 < 10" by simp
    ultimately show ?thesis
      using False
      by (subst digits.simps)
         (simp add: decimal_snoc digit_char_value del: digits.simps)
  qed
qed






subsection \<open>GetBookWithAverageScore\<close>

lemma map_snd_map_filter:
  "map snd (List.map_filter (\<lambda>r. if P r then map_option (\<lambda>u. (u, r)) (g r) else None) xs)
   = filter (\<lambda>r. P r \<and> g r \<noteq> None) xs"
  by (induction xs) (auto split: option.splits)

lemma map_snd_Book_Users:
  "map snd (Book_Users bid s) =
     filter (\<lambda>r. bookId r = bid \<and> User_findByPk (userId r) s \<noteq> None) (userBooks s)"
  unfolding Book_Users_def by (rule map_snd_map_filter)













subsection \<open>The book view\<close>







subsection \<open>Rows after a sequential history\<close>

text \<open>
  After a sequential history every row refers to an existing user and book, so
  the joins of \<open>getBookWithScore\<close> and \<open>getUserById\<close> lose no row, and the
  open rows that enter the average do so with the score 0.
\<close>

lemma sound_links_borrowBook:
  assumes "sound_links s" and "borrowBook uid bid s = Inr (res, s')"
  shows "sound_links s'"
  using assms
  by (auto simp: sound_links_def borrowBook_def Let_def UserBooks_create_def
        UserBooks_update_def set_row_def User_findByPk_def Book_findByPk_def
        split: option.splits sum.splits if_splits)

lemma sound_links_returnBook:
  assumes "sound_links s"
  shows "sound_links (snd (returnBook uid bid score s))"
  using assms
  by (auto simp: sound_links_def returnBook_def Let_def UserBooks_update_def set_row_def
        User_findByPk_def Book_findByPk_def split: option.splits if_splits)

lemma sound_links_exec:
  assumes "sound_links s"
  shows "sound_links (exec c s)"
proof (cases c)
  case (CreateUser nm)
  with assms show ?thesis
    by (auto simp: sound_links_def post_users_def createUser_def User_create_def Let_def
          User_findByPk_def Book_findByPk_def find_None_iff)
next
  case (CreateBook nm)
  with assms show ?thesis
    by (auto simp: sound_links_def post_books_def Book_create_def Let_def
          User_findByPk_def Book_findByPk_def find_None_iff)
next
  case (BorrowBook uid bid)
  with assms show ?thesis
    using sound_links_borrowBook [of s uid bid]
    by (auto simp: post_borrow_def split: sum.splits)
next
  case (ReturnBook uid bid score)
  with assms show ?thesis
    by (simp add: snd_post_return sound_links_returnBook)
qed

lemma sound_links_run: "sound_links (run calls)"
proof -
  have "sound_links s \<Longrightarrow> sound_links (fold exec calls s)" for s
    by (induction calls arbitrary: s) (simp_all add: sound_links_exec)
  moreover have "sound_links empty_db"
    by (simp add: sound_links_def empty_db_def)
  ultimately show ?thesis by (simp add: run_def)
qed

lemma Book_Users_run:
  "map snd (Book_Users bid (run calls)) = filter (\<lambda>r. bookId r = bid) (userBooks (run calls))"
  using sound_links_run [of calls]
  unfolding map_snd_Book_Users sound_links_def
  by (intro filter_cong) auto

lemma open_rows_unscored_run:
  "r \<in> set (userBooks (run calls)) \<Longrightarrow> isCurrentlyBorrowed r \<Longrightarrow> userScore r = 0"
  using sound_links_run [of calls] by (simp add: sound_links_def)

lemma User_Books_run:
  "map snd (User_Books uid (run calls)) = filter (\<lambda>r. userId r = uid) (userBooks (run calls))"
  using sound_links_run [of calls]
  unfolding User_Books_def map_snd_map_filter sound_links_def
  by (intro filter_cong) auto

end
